theory Spec2Isabelle
  imports Complex_Main "HOL-Library.AList"
begin

section \<open>The synchronization manager of the video player\<close>

text \<open>
  The class \<^verbatim>\<open>SynchronizationManager\<close> keeps several media elements on the timeline of
  the first registered one. Its methods are embedded as functions on a record of the
  manager's fields. Media elements are objects compared by identity: an element is a
  number here, and its properties live in a table indexed by that number. Times are
  JavaScript numbers, that is binary64 floating point numbers; they are real numbers
  here. The manager compares times, which is exact, takes the least of a list of times,
  which is exact, and subtracts two times in the tick, which rounds: the subtraction is
  modelled with the rounding of binary64. \<^verbatim>\<open>NaN\<close> and the infinities are outside the
  model.
\<close>

subsection \<open>Media elements and the playback state store\<close>

type_synonym video = nat

type_synonym callback = nat

text \<open>
  The properties of an \<^verbatim>\<open>HTMLMediaElement\<close> that the manager reads or writes.
  \<^verbatim>\<open>buffered\<close> is the list of the \<^verbatim>\<open>(start(i), end(i))\<close> pairs of its time ranges.
\<close>

record element =
  currentTime :: real
  buffered :: "(real \<times> real) list"
  duration :: real

text \<open>
  Modelled from the spec: \<^verbatim>\<open>PLAY_STATES\<close> of \<^verbatim>\<open>constants.js\<close>, which is not part of the
  sources at hand. The spec enumerates the play states PLAYING, PAUSED, WAITING and
  FINISHED. Every one of them is taken to be a truthy JavaScript value.
\<close>

datatype play_state = PLAYING | PAUSED | WAITING | FINISHED

text \<open>
  Modelled from the spec: the \<^verbatim>\<open>state\<close> object of the \<^verbatim>\<open>StateManager\<close>, which is not
  part of the sources at hand. The spec lists the fields the manager reads (position,
  duration, play state, trim start, trim end, live) and the buffer position it writes.
  A trim bound that is \<^verbatim>\<open>undefined\<close> or \<^verbatim>\<open>null\<close> is \<open>None\<close>.
\<close>

record store =
  position :: real
  mediaDuration :: real
  bufferPosition :: real
  playState :: play_state
  trimStart :: "real option"
  trimEnd :: "real option"
  live :: bool

text \<open>
  What the manager does to the world outside its own fields, in program order: the calls
  on the store with their arguments (\<open>None\<close> is an omitted optional argument), the
  writes of an element's \<^verbatim>\<open>currentTime\<close>, the invocations of ready callbacks, and the
  additions to the set of waiting elements.
\<close>

datatype effect =
  SetPosition real bool
  | SetPlayState play_state "bool option"
  | SetDuration real
  | SetBufferPosition real
  | WriteCurrentTime video real
  | Invoke callback
  | WaitingAdd video

text \<open>
  The fields of the manager, the state of the store it holds a reference to, the table of
  the elements' properties, and the log of effects. \<^verbatim>\<open>_videosWaiting\<close> is a JavaScript
  \<^verbatim>\<open>Set\<close>; \<^verbatim>\<open>_videoBufferPositions\<close> is a \<^verbatim>\<open>Map\<close>, kept as an association list in
  insertion order; \<^verbatim>\<open>backupPlayState\<close> is \<open>None\<close> while it is \<^verbatim>\<open>undefined\<close> or \<^verbatim>\<open>null\<close>.
\<close>

record sync =
  stateManager :: store
  videos :: "video list"
  videosWaiting :: "video set"
  videoBufferPositions :: "(video \<times> real) list"
  readyCallbacks :: "(callback \<times> bool) list"
  backupPlayState :: "play_state option"
  elems :: "video \<Rightarrow> element"
  trace :: "effect list"

datatype error = TypeError

subsection \<open>The setters of the store\<close>

text \<open>
  Modelled from the spec: \<^verbatim>\<open>StateManager.setPosition(time, markAsUserSeek)\<close>, which is
  not part of the sources at hand; it stores the position.
\<close>

definition setPosition :: "real \<Rightarrow> bool \<Rightarrow> sync \<Rightarrow> sync" where
  "setPosition t userSeek s =
     s\<lparr>stateManager := (stateManager s)\<lparr>position := t\<rparr>,
       trace := trace s @ [SetPosition t userSeek]\<rparr>"

text \<open>
  Modelled from the spec: \<^verbatim>\<open>StateManager.setPlayState(state, markAsUserAction)\<close>, which
  is not part of the sources at hand; it stores the play state.
\<close>

definition setPlayState :: "play_state \<Rightarrow> bool option \<Rightarrow> sync \<Rightarrow> sync" where
  "setPlayState p userAction s =
     s\<lparr>stateManager := (stateManager s)\<lparr>playState := p\<rparr>,
       trace := trace s @ [SetPlayState p userAction]\<rparr>"

text \<open>
  Modelled from the spec: \<^verbatim>\<open>StateManager.setDuration(time)\<close>, which is not part of the
  sources at hand; it stores the duration.
\<close>

definition setDuration :: "real \<Rightarrow> sync \<Rightarrow> sync" where
  "setDuration t s =
     s\<lparr>stateManager := (stateManager s)\<lparr>mediaDuration := t\<rparr>,
       trace := trace s @ [SetDuration t]\<rparr>"

text \<open>
  Modelled from the spec: \<^verbatim>\<open>StateManager.setBufferPosition(time)\<close>, which is not part
  of the sources at hand; it stores the buffer position.
\<close>

definition setBufferPosition :: "real \<Rightarrow> sync \<Rightarrow> sync" where
  "setBufferPosition t s =
     s\<lparr>stateManager := (stateManager s)\<lparr>bufferPosition := t\<rparr>,
       trace := trace s @ [SetBufferPosition t]\<rparr>"

text \<open>The assignment \<^verbatim>\<open>video.currentTime = t\<close>.\<close>

definition writeCurrentTime :: "video \<Rightarrow> real \<Rightarrow> sync \<Rightarrow> sync" where
  "writeCurrentTime video t s =
     s\<lparr>elems := (elems s)(video := (elems s video)\<lparr>currentTime := t\<rparr>),
       trace := trace s @ [WriteCurrentTime video t]\<rparr>"

subsection \<open>Registration, callbacks and mastery\<close>

text \<open>\<^verbatim>\<open>registerVideo\<close>: the element is pushed to the end of \<^verbatim>\<open>_videos\<close>.\<close>

definition registerVideo :: "video \<Rightarrow> sync \<Rightarrow> sync" where
  "registerVideo video s = s\<lparr>videos := videos s @ [video]\<rparr>"

text \<open>
  \<^verbatim>\<open>unregisterVideo\<close>: \<^verbatim>\<open>_videos\<close> is filtered by \<^verbatim>\<open>x !== video\<close> and the element is
  deleted from \<^verbatim>\<open>_videosWaiting\<close>. The method touches no other field of the manager.
  The listeners that the two methods add and remove are not part of the state: a
  notification of an element is an event of a run, see below.
\<close>

definition unregisterVideo :: "video \<Rightarrow> sync \<Rightarrow> sync" where
  "unregisterVideo video s =
     s\<lparr>videos := filter (\<lambda>x. x \<noteq> video) (videos s),
       videosWaiting := videosWaiting s - {video}\<rparr>"

text \<open>\<^verbatim>\<open>onVideosReady\<close>: the pair is pushed to the end of \<^verbatim>\<open>_readyCallbacks\<close>.\<close>

definition onVideosReady :: "callback \<Rightarrow> bool \<Rightarrow> sync \<Rightarrow> sync" where
  "onVideosReady cb once s = s\<lparr>readyCallbacks := readyCallbacks s @ [(cb, once)]\<rparr>"

text \<open>\<^verbatim>\<open>Array.prototype.indexOf\<close>: the first index of the value, or \<open>-1\<close>.\<close>

fun indexOf :: "'a list \<Rightarrow> 'a \<Rightarrow> int" where
  "indexOf [] x = - 1"
| "indexOf (y # ys) x =
     (if y = x then 0 else (let i = indexOf ys x in if i < 0 then - 1 else i + 1))"

definition isMaster :: "video \<Rightarrow> sync \<Rightarrow> bool" where
  "isMaster video s = (indexOf (videos s) video = 0)"

definition anyWaiting :: "sync \<Rightarrow> bool" where
  "anyWaiting s = (videosWaiting s \<noteq> {})"

subsection \<open>Stall and recovery\<close>

text \<open>The private method \<^verbatim>\<open>_backupPlayState\<close>.\<close>

definition do_backupPlayState :: "sync \<Rightarrow> sync" where
  "do_backupPlayState s =
     (let p = playState (stateManager s) in
      if p \<noteq> WAITING then s\<lparr>backupPlayState := Some p\<rparr> else s)"

text \<open>The private method \<^verbatim>\<open>_restorePlayState\<close>.\<close>

definition do_restorePlayState :: "sync \<Rightarrow> sync" where
  "do_restorePlayState s =
     (case backupPlayState s of
        None \<Rightarrow> s
      | Some b \<Rightarrow>
          (let s1 = (if playState (stateManager s) = WAITING
                     then setPlayState b (Some False) s else s)
           in s1\<lparr>backupPlayState := None\<rparr>))"

definition setWaiting :: "video \<Rightarrow> sync \<Rightarrow> sync" where
  "setWaiting video s =
     (let s1 = (if \<not> anyWaiting s then do_backupPlayState s else s);
          s2 = s1\<lparr>videosWaiting := insert video (videosWaiting s1),
                  trace := trace s1 @ [WaitingAdd video]\<rparr>
      in if playState (stateManager s2) \<noteq> FINISHED
         then setPlayState WAITING None s2 else s2)"

definition videoWaiting :: "video \<Rightarrow> sync \<Rightarrow> sync" where
  "videoWaiting target s = setWaiting target s"

text \<open>
  The loop of \<^verbatim>\<open>_videoSeeking\<close> over the buffered ranges, from the first range on: it
  returns from the handler at the first range with \<^verbatim>\<open>start(i) <= seekTime < end(i)\<close>.
\<close>

fun seekBuffered :: "real \<Rightarrow> (real \<times> real) list \<Rightarrow> bool" where
  "seekBuffered seekTime [] = False"
| "seekBuffered seekTime (r # rs) =
     (if seekTime \<ge> fst r \<and> seekTime < snd r then True else seekBuffered seekTime rs)"

definition videoSeeking :: "video \<Rightarrow> sync \<Rightarrow> sync" where
  "videoSeeking target s =
     (let seekTime = currentTime (elems s target) in
      if seekBuffered seekTime (buffered (elems s target)) then s
      else setWaiting target s)"

text \<open>
  \<^verbatim>\<open>_videoReady\<close>. \<^verbatim>\<open>Set.delete\<close> returns whether the element was a member. A ready
  callback is an opaque function: its invocation is logged, and it is taken not to call
  back into the manager.
\<close>

definition videoReady :: "video \<Rightarrow> sync \<Rightarrow> sync" where
  "videoReady target s =
     (let deleted = (target \<in> videosWaiting s);
          s1 = s\<lparr>videosWaiting := videosWaiting s - {target}\<rparr>
      in if deleted \<and> \<not> anyWaiting s1 then
           (let s2 = do_restorePlayState s1;
                s3 = s2\<lparr>trace := trace s2 @ map (\<lambda>entry. Invoke (fst entry)) (readyCallbacks s2)\<rparr>
            in s3\<lparr>readyCallbacks := filter (\<lambda>entry. \<not> snd entry) (readyCallbacks s3)\<rparr>)
         else s1)"

subsection \<open>Publishing the master's facts\<close>

text \<open>JavaScript truthiness of a trim bound: a number other than zero.\<close>

definition truthy :: "real option \<Rightarrow> bool" where
  "truthy t = (case t of None \<Rightarrow> False | Some x \<Rightarrow> x \<noteq> 0)"

definition videoTimeUpdate :: "video \<Rightarrow> sync \<Rightarrow> sync" where
  "videoTimeUpdate video s =
     (let st = stateManager s; t = currentTime (elems s video) in
      if isMaster video s \<and> \<not> anyWaiting s then
        (if truthy (trimStart st) \<and> t < the (trimStart st)
         then setPosition (the (trimStart st)) False s
         else if truthy (trimEnd st) \<and> t > the (trimEnd st)
         then setPosition (the (trimEnd st)) False s
         else setPosition t False s)
      else s)"

definition videoEnded :: "video \<Rightarrow> sync \<Rightarrow> sync" where
  "videoEnded video s =
     (if isMaster video s \<and> \<not> anyWaiting s then setPlayState FINISHED None s else s)"

definition videoDurationChanged :: "video \<Rightarrow> sync \<Rightarrow> sync" where
  "videoDurationChanged video s =
     (if isMaster video s then setDuration (duration (elems s video)) s else s)"

text \<open>
  The loop of \<^verbatim>\<open>_videoProgress\<close> runs from the last buffered range down to the first and
  stops at the first range whose start is not after the current time; the end of that
  range is the element's buffer position.
\<close>

definition currentBuffer :: "real \<Rightarrow> (real \<times> real) list \<Rightarrow> real option" where
  "currentBuffer t rs = map_option snd (find (\<lambda>r. fst r \<le> t) (rev rs))"

definition videoProgress :: "video \<Rightarrow> sync \<Rightarrow> sync" where
  "videoProgress video s =
     (if length (buffered (elems s video)) > 0 then
        (let s1 = (case currentBuffer (currentTime (elems s video)) (buffered (elems s video)) of
                     None \<Rightarrow> s
                   | Some b \<Rightarrow>
                       s\<lparr>videoBufferPositions := AList.update video b (videoBufferPositions s)\<rparr>)
         in case map snd (videoBufferPositions s1) of
              [] \<Rightarrow> s1
            | x # xs \<Rightarrow> setBufferPosition (foldl min x xs) s1)
      else s)"

subsection \<open>Subtraction of JavaScript numbers\<close>

text \<open>
  A binary64 number has a significand of 53 bits. The exponent of a real number is that
  of the power of two at or below its absolute value, and not less than \<open>-1022\<close>, where
  the subnormal numbers begin; the numbers with that exponent are the multiples of
  \<open>ulp64\<close>. \<open>float64\<close> rounds a real number to the nearest of these multiples, and a
  number halfway between two of them to the one with the even significand. A result
  beyond the largest binary64 number, which is \<^verbatim>\<open>Infinity\<close> in JavaScript, is a number
  of at least \<open>2 ^ 1024\<close> here. \<open>minus64\<close> is the operator \<^verbatim>\<open>-\<close> on two numbers: the
  exact difference, rounded.
\<close>

definition pow2 :: "int \<Rightarrow> real" where
  "pow2 e = (if e \<ge> 0 then 2 ^ nat e else 1 / 2 ^ nat (- e))"

definition exponent64 :: "real \<Rightarrow> int" where
  "exponent64 x = max \<lfloor>log 2 \<bar>x\<bar>\<rfloor> (- 1022)"

definition ulp64 :: "real \<Rightarrow> real" where
  "ulp64 x = pow2 (exponent64 x - 52)"

definition roundTiesToEven :: "real \<Rightarrow> int" where
  "roundTiesToEven y =
     (let f = \<lfloor>y\<rfloor> in
      if y - of_int f < 1 / 2 then f
      else if y - of_int f > 1 / 2 then f + 1
      else if even f then f else f + 1)"

definition float64 :: "real \<Rightarrow> real" where
  "float64 x = (if x = 0 then 0 else of_int (roundTiesToEven (x / ulp64 x)) * ulp64 x)"

definition minus64 :: "real \<Rightarrow> real \<Rightarrow> real" where
  "minus64 a b = float64 (a - b)"

subsection \<open>The drift correction tick\<close>

text \<open>
  \<^verbatim>\<open>this._videos[0]\<close> is \<^verbatim>\<open>undefined\<close> when the registry is empty, and reading
  \<^verbatim>\<open>currentTime\<close> of \<^verbatim>\<open>undefined\<close> throws a \<^verbatim>\<open>TypeError\<close>.
\<close>

definition masterTime :: "video option \<Rightarrow> sync \<Rightarrow> error + real" where
  "masterTime master s =
     (case master of None \<Rightarrow> Inl TypeError | Some m \<Rightarrow> Inr (currentTime (elems s m)))"

text \<open>\<^verbatim>\<open>Array.prototype.filter\<close> and \<^verbatim>\<open>forEach\<close> with a callback that may throw.\<close>

fun filterE :: "('a \<Rightarrow> error + bool) \<Rightarrow> 'a list \<Rightarrow> error + 'a list" where
  "filterE p [] = Inr []"
| "filterE p (x # xs) =
     (case p x of
        Inl e \<Rightarrow> Inl e
      | Inr b \<Rightarrow>
          (case filterE p xs of
             Inl e \<Rightarrow> Inl e
           | Inr ys \<Rightarrow> Inr (if b then x # ys else ys)))"

fun forEachE :: "('a \<Rightarrow> 's \<Rightarrow> error + 's) \<Rightarrow> 'a list \<Rightarrow> 's \<Rightarrow> error + 's" where
  "forEachE f [] s = Inr s"
| "forEachE f (x # xs) s =
     (case f x s of Inl e \<Rightarrow> Inl e | Inr s' \<Rightarrow> forEachE f xs s')"

text \<open>
  One run of the body of \<^verbatim>\<open>_syncVideos\<close>, up to the \<^verbatim>\<open>setTimeout\<close> that schedules the
  next run. \<open>threshold\<close> is \<^verbatim>\<open>SYNC_DIFF_THRESHOLD\<close> of \<^verbatim>\<open>constants.js\<close>, which is not
  part of the sources at hand.
\<close>

definition syncVideos :: "real \<Rightarrow> sync \<Rightarrow> error + sync" where
  "syncVideos threshold s =
     (if \<not> anyWaiting s \<and> \<not> live (stateManager s) then
        (let master = (case videos s of [] \<Rightarrow> None | m # _ \<Rightarrow> Some m) in
         if playState (stateManager s) = PAUSED then
           (case filterE (\<lambda>video. case masterTime master s of
                                     Inl e \<Rightarrow> Inl e
                                   | Inr mt \<Rightarrow> Inr (currentTime (elems s video) \<noteq> mt))
                   (videos s) of
              Inl e \<Rightarrow> Inl e
            | Inr vs \<Rightarrow>
                forEachE (\<lambda>video s'. case masterTime master s' of
                                       Inl e \<Rightarrow> Inl e
                                     | Inr mt \<Rightarrow> Inr (writeCurrentTime video mt s'))
                  vs s)
         else
           (case filterE (\<lambda>video. case masterTime master s of
                                     Inl e \<Rightarrow> Inl e
                                   | Inr mt \<Rightarrow>
                                       Inr (\<bar>minus64 (currentTime (elems s video)) mt\<bar>
                                              > threshold))
                   (videos s) of
              Inl e \<Rightarrow> Inl e
            | Inr vs \<Rightarrow>
                forEachE (\<lambda>video s'.
                            (let s1 = setWaiting video s' in
                             case masterTime master s1 of
                               Inl e \<Rightarrow> Inl e
                             | Inr mt \<Rightarrow> Inr (writeCurrentTime video mt s1)))
                  vs s))
      else Inr s)"

text \<open>
  The constructor: every collection is empty, \<^verbatim>\<open>backupPlayState\<close> is not yet defined,
  and the first run of \<^verbatim>\<open>_syncVideos\<close> happens at once.
\<close>

definition constructor :: "real \<Rightarrow> store \<Rightarrow> (video \<Rightarrow> element) \<Rightarrow> error + sync" where
  "constructor threshold st es =
     syncVideos threshold
       \<lparr>stateManager = st, videos = [], videosWaiting = {}, videoBufferPositions = [],
        readyCallbacks = [], backupPlayState = None, elems = es, trace = []\<rparr>"

subsection \<open>Runs of the manager\<close>

text \<open>
  The calls of the public methods, the notifications of the elements (each names its
  target), the timer tick, and what the world outside does between two of them: the
  browser changing an element's properties, and another writer replacing the state of
  the store.
\<close>

datatype event =
  Register video
  | Unregister video
  | OnReady callback bool
  | Stalled video
  | SeekStarted video
  | BecameReady video
  | BufferProgress video
  | TimeProgress video
  | EndOfStream video
  | DurationKnown video
  | Tick
  | ElementChanged video element
  | StoreChanged store

fun step :: "real \<Rightarrow> event \<Rightarrow> sync \<Rightarrow> error + sync" where
  "step thr (Register v) s = Inr (registerVideo v s)"
| "step thr (Unregister v) s = Inr (unregisterVideo v s)"
| "step thr (OnReady cb once) s = Inr (onVideosReady cb once s)"
| "step thr (Stalled v) s = Inr (videoWaiting v s)"
| "step thr (SeekStarted v) s = Inr (videoSeeking v s)"
| "step thr (BecameReady v) s = Inr (videoReady v s)"
| "step thr (BufferProgress v) s = Inr (videoProgress v s)"
| "step thr (TimeProgress v) s = Inr (videoTimeUpdate v s)"
| "step thr (EndOfStream v) s = Inr (videoEnded v s)"
| "step thr (DurationKnown v) s = Inr (videoDurationChanged v s)"
| "step thr Tick s = syncVideos thr s"
| "step thr (ElementChanged v el) s = Inr (s\<lparr>elems := (elems s)(v := el)\<rparr>)"
| "step thr (StoreChanged st) s = Inr (s\<lparr>stateManager := st\<rparr>)"

fun run :: "real \<Rightarrow> event list \<Rightarrow> sync \<Rightarrow> error + sync" where
  "run thr [] s = Inr s"
| "run thr (e # es) s = (case step thr e s of Inl err \<Rightarrow> Inl err | Inr s' \<Rightarrow> run thr es s')"

subsection \<open>Reading the log of effects\<close>

text \<open>The effects that a call added to the log: the log after it, without the log before.\<close>

definition newEffects :: "sync \<Rightarrow> sync \<Rightarrow> effect list" where
  "newEffects s s' = drop (length (trace s)) (trace s')"

text \<open>The callbacks invoked in a piece of the log, in the order of their invocation.\<close>

fun invocations :: "effect list \<Rightarrow> callback list" where
  "invocations [] = []"
| "invocations (Invoke cb # es) = cb # invocations es"
| "invocations (e # es) = invocations es"

text \<open>
  \<open>preceded a b es\<close>: no \<open>b\<close> stands in \<open>es\<close> before the first \<open>a\<close>, so every \<open>b\<close> of
  \<open>es\<close> comes after an \<open>a\<close>.
\<close>

fun preceded :: "'a \<Rightarrow> 'a \<Rightarrow> 'a list \<Rightarrow> bool" where
  "preceded a b [] = True"
| "preceded a b (x # xs) = (if x = a then True else x \<noteq> b \<and> preceded a b xs)"

text \<open>What \<^verbatim>\<open>setWaiting\<close> calls on the store when the play state before it is \<open>p\<close>.\<close>

definition publishedOnStall :: "play_state \<Rightarrow> effect list" where
  "publishedOnStall p = (if p = FINISHED then [] else [SetPlayState WAITING None])"

text \<open>The stall and ready notifications among the events.\<close>

fun stallOrReady :: "event \<Rightarrow> bool" where
  "stallOrReady (Stalled v) = True"
| "stallOrReady (BecameReady v) = True"
| "stallOrReady e = False"

subsection \<open>Example states\<close>

definition store0 :: store where
  "store0 = \<lparr>position = 0, mediaDuration = 0, bufferPosition = 0, playState = PLAYING,
             trimStart = None, trimEnd = None, live = False\<rparr>"

definition element0 :: element where
  "element0 = \<lparr>currentTime = 0, buffered = [], duration = 0\<rparr>"

text \<open>The manager right after its construction, on a store that is playing.\<close>

definition sync0 :: sync where
  "sync0 = \<lparr>stateManager = store0, videos = [], videosWaiting = {}, videoBufferPositions = [],
            readyCallbacks = [], backupPlayState = None, elems = (\<lambda>_. element0), trace = []\<rparr>"

text \<open>Elements 0 and 1 stall, then element 0 recovers.\<close>

definition scenarioEvents :: "event list" where
  "scenarioEvents = [Stalled 0, Stalled 1, BecameReady 0]"

text \<open>The manager after element 0 was registered and reported the end of its stream.\<close>

definition endedManager :: sync where
  "endedManager =
     sync0\<lparr>stateManager := store0\<lparr>playState := FINISHED\<rparr>,
           videos := [0], trace := [SetPlayState FINISHED None]\<rparr>"

text \<open>
  Element 0 reports progress and is unregistered; then element 1, which has buffered
  twice as far, reports progress.
\<close>

definition unregisterEvents :: "event list" where
  "unregisterEvents =
     [Register 0, Register 1,
      ElementChanged 0 \<lparr>currentTime = 0, buffered = [(0, 5)], duration = 60\<rparr>,
      BufferProgress 0,
      Unregister 0,
      ElementChanged 1 \<lparr>currentTime = 0, buffered = [(0, 10)], duration = 60\<rparr>,
      BufferProgress 1]"

text \<open>A master at 10 seconds, one slave 0.25 seconds ahead and one 3 seconds ahead.\<close>

definition driftExample :: "play_state \<Rightarrow> sync" where
  "driftExample p =
     sync0\<lparr>stateManager := store0\<lparr>playState := p\<rparr>,
           videos := [0, 1, 2],
           elems := (\<lambda>_. element0)
             (0 := element0\<lparr>currentTime := 10\<rparr>,
              1 := element0\<lparr>currentTime := 41 / 4\<rparr>,
              2 := element0\<lparr>currentTime := 13\<rparr>)\<rparr>"

text \<open>
  A master at the binary64 number nearest to 0.059 and a slave at the one nearest to
  0.559. Their exact difference is \<open>1 / 2 + 1 / 2 ^ 54\<close>.
\<close>

definition roundingExample :: sync where
  "roundingExample =
     sync0\<lparr>videos := [0, 1],
           elems := (\<lambda>_. element0)
             (0 := element0\<lparr>currentTime := 1062849512059437 / 18014398509481984\<rparr>,
              1 := element0\<lparr>currentTime := 5035024383400215 / 9007199254740992\<rparr>)\<rparr>"

definition progressExample :: sync where
  "progressExample =
     sync0\<lparr>videos := [0, 1, 2],
           videoBufferPositions := [(0, 5)],
           elems := (\<lambda>_. element0)
             (1 := \<lparr>currentTime = 12, buffered = [(0, 4), (8, 20), (30, 40)],
                   duration = 60\<rparr>)\<rparr>"

text \<open>Element 0 is the only waiting element, and three callbacks are registered.\<close>

definition waitingExample :: sync where
  "waitingExample =
     sync0\<lparr>stateManager := store0\<lparr>playState := WAITING\<rparr>,
           videos := [0, 1], videosWaiting := {0},
           readyCallbacks := [(7, False), (8, True), (9, False)],
           backupPlayState := Some PLAYING\<rparr>"

text \<open>A backup is left over, and the store has been paused in the meantime.\<close>

definition pausedExample :: sync where
  "pausedExample =
     sync0\<lparr>stateManager := store0\<lparr>playState := PAUSED\<rparr>,
           videos := [0, 1], backupPlayState := Some PLAYING\<rparr>"

text \<open>Element 0 was registered twice before element 1.\<close>

definition twiceRegistered :: sync where
  "twiceRegistered = sync0\<lparr>videos := [0, 0, 1]\<rparr>"

definition trimExample :: "real option \<Rightarrow> real option \<Rightarrow> real \<Rightarrow> sync" where
  "trimExample a b t =
     sync0\<lparr>stateManager := store0\<lparr>trimStart := a, trimEnd := b\<rparr>,
           videos := [0, 1],
           elems := (\<lambda>_. element0)(0 := element0\<lparr>currentTime := t\<rparr>)\<rparr>"

definition seekExample :: "real \<Rightarrow> sync" where
  "seekExample t =
     sync0\<lparr>videos := [0, 1],
           elems := (\<lambda>_. element0)
             (1 := \<lparr>currentTime = t, buffered = [(0, 5), (8, 12)], duration = 60\<rparr>)\<rparr>"

section \<open>Properties of the methods\<close>

subsection \<open>Auxiliary facts\<close>

lemmas ex_defs = sync0_def store0_def element0_def

lemma indexOf_ge: "indexOf xs x \<ge> - 1"
  by (induction xs) (auto simp: Let_def)

lemma indexOf_zero: "indexOf xs x = 0 \<longleftrightarrow> (xs \<noteq> [] \<and> hd xs = x)"
  using indexOf_ge[of "tl xs" x] by (cases xs) (auto simp: Let_def)

lemma seekBuffered_iff:
  "seekBuffered t rs \<longleftrightarrow> (\<exists>r \<in> set rs. fst r \<le> t \<and> t < snd r)"
  by (induction rs) auto

lemma unregisterVideo_fields:
  "video \<notin> set (videos (unregisterVideo video s)) \<and>
   video \<notin> videosWaiting (unregisterVideo video s) \<and>
   videoBufferPositions (unregisterVideo video s) = videoBufferPositions s"
  by (simp add: unregisterVideo_def)

lemma Min_insert_min:
  "finite S \<Longrightarrow> Min (insert (min x a) S) = Min (insert (x::real) (insert a S))"
  by (cases "S = {}") (simp_all add: min.assoc)

lemma foldl_min_Min: "foldl min (x::real) xs = Min (set (x # xs))"
  by (induction xs arbitrary: x) (simp_all add: Min_insert_min)

text \<open>
  A progress notification either changes nothing, or it leaves a non-empty map of
  buffer positions behind and publishes the least of its values.
\<close>

lemma videoProgress_cases:
  "videoProgress v s = s \<or>
   (\<exists>m. m \<noteq> [] \<and> videoProgress v s =
      setBufferPosition (Min (snd ` set m)) (s\<lparr>videoBufferPositions := m\<rparr>))"
proof (cases "buffered (elems s v) = []")
  case True
  then show ?thesis by (simp add: videoProgress_def)
next
  case False
  define s1 where
    "s1 = (case currentBuffer (currentTime (elems s v)) (buffered (elems s v)) of
             None \<Rightarrow> s
           | Some b \<Rightarrow> s\<lparr>videoBufferPositions := AList.update v b (videoBufferPositions s)\<rparr>)"
  have s1: "s1 = s\<lparr>videoBufferPositions := videoBufferPositions s1\<rparr>"
    by (simp add: s1_def split: option.splits)
  have vp: "videoProgress v s =
      (case map snd (videoBufferPositions s1) of
         [] \<Rightarrow> s1
       | x # xs \<Rightarrow> setBufferPosition (foldl min x xs) s1)"
    using False unfolding s1_def videoProgress_def Let_def by simp
  show ?thesis
  proof (cases "videoBufferPositions s1")
    case Nil
    then have "s1 = s"
      by (auto simp: s1_def split: option.splits)
    with vp Nil show ?thesis by simp
  next
    case (Cons p ps)
    then have "videoProgress v s =
        setBufferPosition (Min (snd ` set (videoBufferPositions s1))) s1"
      using vp by (simp add: foldl_min_Min)
    with s1 Cons show ?thesis by (metis list.distinct(1))
  qed
qed

lemma invocations_append: "invocations (xs @ ys) = invocations xs @ invocations ys"
  by (induction xs rule: invocations.induct) auto

lemma invocations_Invoke: "invocations (map (\<lambda>entry. Invoke (fst entry)) cs) = map fst cs"
  by (induction cs) auto

lemma videoReady_effects:
  "videosWaiting s = {v} \<Longrightarrow>
   invocations (newEffects s (videoReady v s)) = map fst (readyCallbacks s) \<and>
   readyCallbacks (videoReady v s) = filter (\<lambda>entry. \<not> snd entry) (readyCallbacks s)"
  by (simp add: videoReady_def newEffects_def Let_def anyWaiting_def do_restorePlayState_def
      setPlayState_def invocations_append invocations_Invoke split: option.splits)

lemma setWaiting_unfold:
  "setWaiting v s =
     (if videosWaiting s = {} \<and> playState (stateManager s) \<noteq> WAITING
      then s\<lparr>backupPlayState := Some (playState (stateManager s))\<rparr> else s)
     \<lparr>videosWaiting := insert v (videosWaiting s),
      trace := trace s @ WaitingAdd v # publishedOnStall (playState (stateManager s)),
      stateManager := (stateManager s)\<lparr>playState :=
         (if playState (stateManager s) = FINISHED then FINISHED else WAITING)\<rparr>\<rparr>"
  by (simp add: setWaiting_def Let_def anyWaiting_def do_backupPlayState_def setPlayState_def
      publishedOnStall_def)

lemma setWaiting_readyCallbacks: "readyCallbacks (setWaiting v s) = readyCallbacks s"
  by (simp add: setWaiting_unfold)

lemma writeCurrentTime_readyCallbacks:
  "readyCallbacks (writeCurrentTime v t s) = readyCallbacks s"
  by (simp add: writeCurrentTime_def)

subsection \<open>Rounding\<close>

lemma pow2_powr: "pow2 e = 2 powr (of_int e)"
  by (simp add: pow2_def powr_int)

lemma ulp64_pos: "0 < ulp64 x"
  by (simp add: ulp64_def pow2_powr)

text \<open>The exponent of a number between two neighbouring powers of two.\<close>

lemma exponent64_eq:
  assumes "pow2 e \<le> \<bar>x\<bar>" and "\<bar>x\<bar> < pow2 (e + 1)" and "- 1022 \<le> e"
  shows "exponent64 x = e"
proof -
  have "0 < pow2 e" by (simp add: pow2_powr)
  with assms(1) have pos: "0 < \<bar>x\<bar>" by linarith
  have "\<lfloor>log 2 \<bar>x\<bar>\<rfloor> = e"
    using assms(1,2) floor_log_eq_powr_iff[OF pos, of 2 e] by (simp add: pow2_powr)
  with assms(3) show ?thesis by (simp add: exponent64_def)
qed

lemma roundTiesToEven_near: "\<bar>of_int (roundTiesToEven y) - y\<bar> \<le> 1 / 2"
  unfolding roundTiesToEven_def Let_def by (auto simp: abs_le_iff)

text \<open>Rounding moves a number by half a unit in the last place at most.\<close>

lemma float64_near: "\<bar>float64 x - x\<bar> \<le> ulp64 x / 2"
proof (cases "x = 0")
  case True
  then show ?thesis using ulp64_pos[of x] by (simp add: float64_def)
next
  case False
  have "float64 x - x = (of_int (roundTiesToEven (x / ulp64 x)) - x / ulp64 x) * ulp64 x"
    using False ulp64_pos[of x] by (simp add: float64_def field_simps)
  then have "\<bar>float64 x - x\<bar> = \<bar>of_int (roundTiesToEven (x / ulp64 x)) - x / ulp64 x\<bar> * ulp64 x"
    using ulp64_pos[of x] by (simp add: abs_mult)
  also have "\<dots> \<le> 1 / 2 * ulp64 x"
    using roundTiesToEven_near[of "x / ulp64 x"] ulp64_pos[of x]
    by (intro mult_right_mono) simp_all
  finally show ?thesis by simp
qed

lemma float64_3: "float64 3 = 3"
proof -
  have "exponent64 3 = 1" by (rule exponent64_eq) (simp_all add: pow2_def)
  then show ?thesis by (simp add: float64_def ulp64_def pow2_def roundTiesToEven_def)
qed

lemma float64_quarter: "float64 (1 / 4) = 1 / 4"
proof -
  have "exponent64 (1 / 4) = - 2" by (rule exponent64_eq) (simp_all add: pow2_def)
  then show ?thesis by (simp add: float64_def ulp64_def pow2_def roundTiesToEven_def)
qed

text \<open>
  A tie: \<open>1 / 2 + 1 / 2 ^ 54\<close> lies halfway between \<open>1 / 2\<close> and the next binary64
  number, and is rounded to \<open>1 / 2\<close>, whose significand is even.
\<close>

lemma float64_tie: "float64 (9007199254740993 / 18014398509481984) = 1 / 2"
proof -
  have "exponent64 (9007199254740993 / 18014398509481984) = - 1"
    by (rule exponent64_eq) (simp_all add: pow2_def)
  then show ?thesis by (simp add: float64_def ulp64_def pow2_def roundTiesToEven_def)
qed

lemma minus64_self: "minus64 a a = 0"
  by (simp add: minus64_def float64_def)

lemma minus64_examples:
  "minus64 (41 / 4) 10 = 1 / 4" "minus64 13 10 = 3"
  "minus64 (5035024383400215 / 9007199254740992) (1062849512059437 / 18014398509481984) = 1 / 2"
  using float64_3 float64_quarter float64_tie by (simp_all add: minus64_def float64_def)

subsection \<open>The tick as a fold over the elements to correct\<close>

lemma filterE_total: "filterE (\<lambda>x. Inr (P x)) xs = Inr (filter P xs)"
  by (induction xs) auto

lemma forEachE_total: "forEachE (\<lambda>x s. Inr (g x s)) xs s = Inr (fold g xs s)"
  by (induction xs arbitrary: s) auto

lemma syncVideos_paused:
  assumes "videosWaiting s = {}" "\<not> live (stateManager s)" "videos s = m # rest"
    "playState (stateManager s) = PAUSED"
  shows "syncVideos thr s =
     Inr (fold (\<lambda>video s'. writeCurrentTime video (currentTime (elems s' m)) s')
            (filter (\<lambda>video. currentTime (elems s video) \<noteq> currentTime (elems s m))
               (videos s)) s)"
  using assms
  by (simp add: syncVideos_def anyWaiting_def masterTime_def filterE_total forEachE_total
      del: fold_simps)

lemma syncVideos_playing:
  assumes "videosWaiting s = {}" "\<not> live (stateManager s)" "videos s = m # rest"
    "playState (stateManager s) \<noteq> PAUSED"
  shows "syncVideos thr s =
     Inr (fold (\<lambda>video s'. writeCurrentTime video (currentTime (elems (setWaiting video s') m))
                             (setWaiting video s'))
            (filter (\<lambda>video. \<bar>minus64 (currentTime (elems s video)) (currentTime (elems s m))\<bar>
                             > thr)
               (videos s)) s)"
  using assms
  by (simp add: syncVideos_def anyWaiting_def masterTime_def filterE_total forEachE_total Let_def
      del: fold_simps)

text \<open>The tick never throws: the master is read only inside the loops over the registry.\<close>

lemma syncVideos_total: "\<exists>s'. syncVideos thr s = Inr s'"
proof (cases "videosWaiting s = {} \<and> \<not> live (stateManager s)")
  case False
  then show ?thesis by (auto simp: syncVideos_def anyWaiting_def)
next
  case True
  show ?thesis
  proof (cases "videos s")
    case Nil
    then show ?thesis by (simp add: syncVideos_def)
  next
    case (Cons m rest)
    with True show ?thesis
      using syncVideos_paused[of s m rest thr] syncVideos_playing[of s m rest thr]
      by (cases "playState (stateManager s) = PAUSED") auto
  qed
qed

lemma fold_paused:
  assumes "currentTime (elems s m) = c"
  shows "fold (\<lambda>video s'. writeCurrentTime video (currentTime (elems s' m)) s') vs s =
     s\<lparr>elems := (\<lambda>w. if w \<in> set vs then (elems s w)\<lparr>currentTime := c\<rparr> else elems s w),
       trace := trace s @ map (\<lambda>w. WriteCurrentTime w c) vs\<rparr>"
  using assms
proof (induction vs arbitrary: s)
  case Nil
  then show ?case by simp
next
  case (Cons v vs)
  let ?s1 = "writeCurrentTime v c s"
  have c1: "currentTime (elems ?s1 m) = c"
    using Cons.prems by (simp add: writeCurrentTime_def)
  have "fold (\<lambda>video s'. writeCurrentTime video (currentTime (elems s' m)) s') (v # vs) s =
        fold (\<lambda>video s'. writeCurrentTime video (currentTime (elems s' m)) s') vs ?s1"
    using Cons.prems by simp
  also have "\<dots> =
      ?s1\<lparr>elems := (\<lambda>w. if w \<in> set vs then (elems ?s1 w)\<lparr>currentTime := c\<rparr> else elems ?s1 w),
          trace := trace ?s1 @ map (\<lambda>w. WriteCurrentTime w c) vs\<rparr>"
    by (rule Cons.IH[OF c1])
  also have "\<dots> =
      s\<lparr>elems := (\<lambda>w. if w \<in> set (v # vs) then (elems s w)\<lparr>currentTime := c\<rparr> else elems s w),
        trace := trace s @ map (\<lambda>w. WriteCurrentTime w c) (v # vs)\<rparr>"
    by (auto simp: writeCurrentTime_def fun_eq_iff)
  finally show ?case .
qed

lemma fold_playing:
  assumes "currentTime (elems s m) = c"
  shows "\<exists>s'. fold (\<lambda>video s'. writeCurrentTime video (currentTime (elems (setWaiting video s') m))
                             (setWaiting video s')) vs s = s' \<and>
     elems s' = (\<lambda>w. if w \<in> set vs then (elems s w)\<lparr>currentTime := c\<rparr> else elems s w) \<and>
     trace s' = trace s @ concat (map (\<lambda>w. WaitingAdd w #
        publishedOnStall (playState (stateManager s)) @ [WriteCurrentTime w c]) vs) \<and>
     videosWaiting s' = videosWaiting s \<union> set vs \<and>
     (playState (stateManager s') = FINISHED \<longleftrightarrow> playState (stateManager s) = FINISHED)"
  using assms
proof (induction vs arbitrary: s)
  case Nil
  then show ?case by simp
next
  case (Cons v vs)
  let ?s1 = "writeCurrentTime v c (setWaiting v s)"
  have c1: "currentTime (elems ?s1 m) = c"
    using Cons.prems by (simp add: writeCurrentTime_def setWaiting_unfold)
  have p1: "publishedOnStall (playState (stateManager ?s1)) =
      publishedOnStall (playState (stateManager s))"
    by (simp add: writeCurrentTime_def setWaiting_unfold publishedOnStall_def)
  have e1: "elems ?s1 = (elems s)(v := (elems s v)\<lparr>currentTime := c\<rparr>)"
    by (simp add: writeCurrentTime_def setWaiting_unfold)
  have t1: "trace ?s1 = trace s @ WaitingAdd v #
      publishedOnStall (playState (stateManager s)) @ [WriteCurrentTime v c]"
    by (simp add: writeCurrentTime_def setWaiting_unfold)
  have w1: "videosWaiting ?s1 = insert v (videosWaiting s)"
    by (simp add: writeCurrentTime_def setWaiting_unfold)
  have f1: "playState (stateManager ?s1) = FINISHED \<longleftrightarrow> playState (stateManager s) = FINISHED"
    by (simp add: writeCurrentTime_def setWaiting_unfold)
  have st: "fold (\<lambda>video s'. writeCurrentTime video (currentTime (elems (setWaiting video s') m))
                             (setWaiting video s')) (v # vs) s =
        fold (\<lambda>video s'. writeCurrentTime video (currentTime (elems (setWaiting video s') m))
                             (setWaiting video s')) vs ?s1"
    using Cons.prems by (simp add: setWaiting_unfold)
  from Cons.IH[OF c1] show ?case
    unfolding st p1 e1 t1 w1 f1 by (auto simp: fun_eq_iff)
qed

lemma preceded_blocks:
  "preceded (WaitingAdd v) (WriteCurrentTime v c)
     (concat (map (\<lambda>w. WaitingAdd w # publishedOnStall p @ [WriteCurrentTime w c]) vs))"
  by (induction vs) (auto simp: publishedOnStall_def)

lemma write_in_blocks:
  "WriteCurrentTime v t \<in>
     set (concat (map (\<lambda>w. WaitingAdd w # publishedOnStall p @ [WriteCurrentTime w c]) vs))
   \<longleftrightarrow> v \<in> set vs \<and> t = c"
  by (induction vs) (auto simp: publishedOnStall_def)

subsection \<open>Facts about runs\<close>

lemma forEachE_readyCallbacks:
  assumes "\<And>x s s'. f x s = Inr s' \<Longrightarrow> readyCallbacks s' = readyCallbacks s"
  shows "forEachE f xs s = Inr s' \<Longrightarrow> readyCallbacks s' = readyCallbacks s"
proof (induction xs arbitrary: s)
  case Nil
  then show ?case by simp
next
  case (Cons x xs)
  then show ?case using assms by (auto split: sum.splits)
qed

lemma syncVideos_readyCallbacks:
  "syncVideos thr s = Inr s' \<Longrightarrow> readyCallbacks s' = readyCallbacks s"
  unfolding syncVideos_def Let_def
  by (auto split: if_splits sum.splits
      elim!: forEachE_readyCallbacks[rotated]
      simp: setWaiting_readyCallbacks writeCurrentTime_readyCallbacks)

text \<open>No method removes a recurring callback from the list.\<close>

lemma step_recurring:
  "step thr e s = Inr s' \<Longrightarrow> (cb, False) \<in> set (readyCallbacks s) \<Longrightarrow>
   (cb, False) \<in> set (readyCallbacks s')"
  by (cases e)
    (auto simp: registerVideo_def unregisterVideo_def onVideosReady_def videoWaiting_def
      setWaiting_readyCallbacks videoSeeking_def videoReady_def Let_def do_restorePlayState_def
      setPlayState_def videoProgress_def setBufferPosition_def videoTimeUpdate_def setPosition_def
      videoEnded_def videoDurationChanged_def setDuration_def
      dest: syncVideos_readyCallbacks split: option.splits list.splits if_splits)

lemma run_recurring:
  "run thr evs s = Inr s' \<Longrightarrow> (cb, False) \<in> set (readyCallbacks s) \<Longrightarrow>
   (cb, False) \<in> set (readyCallbacks s')"
proof (induction evs arbitrary: s)
  case Nil
  then show ?case by simp
next
  case (Cons e evs)
  then show ?case by (auto split: sum.splits dest: step_recurring)
qed

text \<open>Once the play state is FINISHED, stall and ready notifications leave it there.\<close>

lemma stall_or_ready_finished:
  assumes "stallOrReady e" and "playState (stateManager s) = FINISHED"
  shows "\<exists>s'. step thr e s = Inr s' \<and> playState (stateManager s') = FINISHED"
  using assms
  by (cases e)
    (auto simp: videoWaiting_def setWaiting_def videoReady_def Let_def do_backupPlayState_def
      do_restorePlayState_def setPlayState_def anyWaiting_def split: option.splits)

text \<open>
  The invariant of the stall and recovery cycle: the play state is not FINISHED, it is
  WAITING exactly while an element waits, and while an element waits the backup holds a
  play state that is neither WAITING nor FINISHED.
\<close>

lemma stall_or_ready_consistent:
  assumes "stallOrReady e"
    and "playState (stateManager s) \<noteq> FINISHED"
    and "playState (stateManager s) = WAITING \<longleftrightarrow> videosWaiting s \<noteq> {}"
    and "videosWaiting s \<noteq> {} \<longrightarrow>
           (\<exists>b. backupPlayState s = Some b \<and> b \<noteq> WAITING \<and> b \<noteq> FINISHED)"
  shows "\<exists>s'. step thr e s = Inr s' \<and>
           playState (stateManager s') \<noteq> FINISHED \<and>
           (playState (stateManager s') = WAITING \<longleftrightarrow> videosWaiting s' \<noteq> {}) \<and>
           (videosWaiting s' \<noteq> {} \<longrightarrow>
              (\<exists>b. backupPlayState s' = Some b \<and> b \<noteq> WAITING \<and> b \<noteq> FINISHED))"
proof (cases e)
  case (Stalled v)
  then show ?thesis using assms(2-4)
    by (auto simp: videoWaiting_def setWaiting_def Let_def do_backupPlayState_def
        setPlayState_def anyWaiting_def)
next
  case (BecameReady v)
  show ?thesis
  proof (cases "v \<in> videosWaiting s \<and> videosWaiting s - {v} = {}")
    case True
    then show ?thesis using assms(2-4) BecameReady
      by (auto simp: videoReady_def Let_def do_restorePlayState_def setPlayState_def
          anyWaiting_def)
  next
    case False
    then show ?thesis using assms(2-4) BecameReady
      by (auto simp: videoReady_def Let_def anyWaiting_def)
  qed
qed (use assms(1) in simp_all)

lemma run_finished:
  "list_all stallOrReady evs \<Longrightarrow> playState (stateManager s) = FINISHED \<Longrightarrow>
   \<exists>s'. run thr evs s = Inr s' \<and> playState (stateManager s') = FINISHED"
proof (induction evs arbitrary: s)
  case Nil
  then show ?case by simp
next
  case (Cons e evs)
  from Cons.prems obtain s1 where
    s1: "step thr e s = Inr s1" "playState (stateManager s1) = FINISHED"
    using stall_or_ready_finished[of e s thr] by auto
  from Cons.IH[OF _ s1(2)] Cons.prems(1) s1(1) show ?case by simp
qed

lemma run_consistent:
  "list_all stallOrReady evs \<Longrightarrow>
   playState (stateManager s) \<noteq> FINISHED \<Longrightarrow>
   (playState (stateManager s) = WAITING \<longleftrightarrow> videosWaiting s \<noteq> {}) \<Longrightarrow>
   (videosWaiting s \<noteq> {} \<longrightarrow>
      (\<exists>b. backupPlayState s = Some b \<and> b \<noteq> WAITING \<and> b \<noteq> FINISHED)) \<Longrightarrow>
   \<exists>s'. run thr evs s = Inr s' \<and>
        (playState (stateManager s') = WAITING \<longleftrightarrow> videosWaiting s' \<noteq> {})"
proof (induction evs arbitrary: s)
  case Nil
  then show ?case by simp
next
  case (Cons e evs)
  from Cons.prems obtain s1 where
    s1: "step thr e s = Inr s1" "playState (stateManager s1) \<noteq> FINISHED"
      "playState (stateManager s1) = WAITING \<longleftrightarrow> videosWaiting s1 \<noteq> {}"
      "videosWaiting s1 \<noteq> {} \<longrightarrow>
        (\<exists>b. backupPlayState s1 = Some b \<and> b \<noteq> WAITING \<and> b \<noteq> FINISHED)"
    using stall_or_ready_consistent[of e s thr] by auto
  from Cons.IH[OF _ s1(2-4)] Cons.prems(1) s1(1) show ?case by simp
qed

section \<open>The claims\<close>

text \<open>
  C1, as the code has it. Start from a manager with no waiting element and a store whose
  play state is not WAITING, and let any sequence of stall and ready notifications for any
  elements follow, with no other event in between. The run never throws. If the play
  state was FINISHED at the start, it is FINISHED at the end, whatever waits: WAITING is
  not published over FINISHED. Otherwise the play state of the store at the end is
  WAITING if and only if the set of waiting elements is not empty.
\<close>

theorem waiting_set_consistency:
  assumes "list_all stallOrReady evs"
    and "videosWaiting s = {}"
    and "playState (stateManager s) \<noteq> WAITING"
  shows "\<exists>s'. run thr evs s = Inr s' \<and>
           (if playState (stateManager s) = FINISHED
            then playState (stateManager s') = FINISHED
            else (playState (stateManager s') = WAITING \<longleftrightarrow> videosWaiting s' \<noteq> {}))"
proof (cases "playState (stateManager s) = FINISHED")
  case True
  then show ?thesis using run_finished[OF assms(1) True, of thr] by simp
next
  case False
  then show ?thesis using run_consistent[OF assms(1) False, of thr] assms(2,3) by simp
qed

theorem waiting_set_consistency_witness:
  "list_all stallOrReady scenarioEvents \<and> videosWaiting sync0 = {} \<and>
   playState (stateManager sync0) = PLAYING \<and>
   \<not> isl (run (1 / 2) scenarioEvents sync0) \<and>
   videosWaiting (projr (run (1 / 2) scenarioEvents sync0)) = {1} \<and>
   playState (stateManager (projr (run (1 / 2) scenarioEvents sync0))) = WAITING"
proof -
  have h1: "list_all stallOrReady scenarioEvents" by (simp add: scenarioEvents_def)
  have h2: "videosWaiting sync0 = {}" by (simp add: ex_defs)
  have h3: "playState (stateManager sync0) = PLAYING" by (simp add: ex_defs)
  then have h3': "playState (stateManager sync0) \<noteq> WAITING" by simp
  from waiting_set_consistency[OF h1 h2 h3', of "1 / 2"] h3 obtain s' where
    s': "run (1 / 2) scenarioEvents sync0 = Inr s'"
      "playState (stateManager s') = WAITING \<longleftrightarrow> videosWaiting s' \<noteq> {}"
    by auto
  have w: "videosWaiting (projr (run (1 / 2) scenarioEvents sync0)) = {1}"
    by (simp add: scenarioEvents_def ex_defs videoWaiting_def setWaiting_def videoReady_def
        Let_def anyWaiting_def do_backupPlayState_def setPlayState_def insert_Diff_if)
  with s' have "playState (stateManager (projr (run (1 / 2) scenarioEvents sync0))) = WAITING"
    by simp
  with h1 h2 h3 s'(1) w show ?thesis by simp
qed

text \<open>
  Element 0 is registered and its stream ends: the manager publishes FINISHED, and no
  element waits. One stall notification later element 0 waits, and the play state is
  still FINISHED.
\<close>

theorem waiting_set_consistency_counterexample:
  "run (1 / 2) [Register 0, EndOfStream 0] sync0 = Inr endedManager \<and>
   videosWaiting endedManager = {} \<and>
   list_all stallOrReady [Stalled 0] \<and>
   run (1 / 2) [Stalled 0] endedManager = Inr (videoWaiting 0 endedManager) \<and>
   videosWaiting (videoWaiting 0 endedManager) = {0} \<and>
   playState (stateManager (videoWaiting 0 endedManager)) = FINISHED"
  by (simp add: endedManager_def ex_defs registerVideo_def videoEnded_def isMaster_def
      videoWaiting_def setWaiting_def Let_def anyWaiting_def do_backupPlayState_def
      setPlayState_def)

text \<open>
  C2, on a run of the code. Elements 0 and 1 are registered, element 0 reports a buffer
  that ends at 5 and is unregistered, then element 1 reports a buffer that ends at 10.
  After the run element 0 holds no registry position, yet the map of buffer positions
  still has its entry, and the buffer position published for the remaining element is
  5, the position of the unregistered one: \<^verbatim>\<open>unregisterVideo\<close> clears the registry and
  the waiting set, and leaves the map of buffer positions alone.
\<close>

theorem unregister_keeps_buffer_position:
  "\<not> isl (run (1 / 2) unregisterEvents sync0) \<and>
   videos (projr (run (1 / 2) unregisterEvents sync0)) = [1] \<and>
   videoBufferPositions (projr (run (1 / 2) unregisterEvents sync0)) = [(0, 5), (1, 10)] \<and>
   bufferPosition (stateManager (projr (run (1 / 2) unregisterEvents sync0))) = 5"
  by (simp add: unregisterEvents_def ex_defs registerVideo_def unregisterVideo_def
      videoProgress_def currentBuffer_def setBufferPosition_def Let_def)

text \<open>
  C3. A tick with a non-empty registry, no waiting element and a store that is not live
  returns without an error. The master is the element at the head of the registry, and
  positions are those before the tick. If the play state is PAUSED, every registered
  element ends at the master's position; an element is written exactly when its position
  differs from the master's, the value written is the master's position, no element is
  added to the waiting set, and the store is left as it was. Otherwise an element is
  written exactly when the absolute difference between its position and the master's,
  as the subtraction of JavaScript numbers computes it, exceeds the threshold; the value
  written is the master's position, an element that is not written keeps its position,
  the elements written are the ones waiting afterwards, and every write of an element's
  position comes after the addition of that element to the waiting set.
\<close>

theorem drift_correction:
  assumes "videosWaiting s = {}" and "\<not> live (stateManager s)" and "videos s = m # rest"
  shows "\<exists>s'. syncVideos thr s = Inr s' \<and>
    (playState (stateManager s) = PAUSED \<longrightarrow>
       (\<forall>v \<in> set (videos s).
          currentTime (elems s' v) = currentTime (elems s m) \<and>
          (WriteCurrentTime v (currentTime (elems s m)) \<in> set (newEffects s s') \<longleftrightarrow>
             currentTime (elems s v) \<noteq> currentTime (elems s m)) \<and>
          (\<forall>t. WriteCurrentTime v t \<in> set (newEffects s s') \<longrightarrow> t = currentTime (elems s m)) \<and>
          WaitingAdd v \<notin> set (newEffects s s')) \<and>
       videosWaiting s' = {} \<and> stateManager s' = stateManager s) \<and>
    (playState (stateManager s) \<noteq> PAUSED \<longrightarrow>
       (\<forall>v \<in> set (videos s).
          (WriteCurrentTime v (currentTime (elems s m)) \<in> set (newEffects s s') \<longleftrightarrow>
             thr < \<bar>minus64 (currentTime (elems s v)) (currentTime (elems s m))\<bar>) \<and>
          (\<forall>t. WriteCurrentTime v t \<in> set (newEffects s s') \<longrightarrow> t = currentTime (elems s m)) \<and>
          currentTime (elems s' v) =
            (if thr < \<bar>minus64 (currentTime (elems s v)) (currentTime (elems s m))\<bar>
             then currentTime (elems s m) else currentTime (elems s v)) \<and>
          (v \<in> videosWaiting s' \<longleftrightarrow>
             thr < \<bar>minus64 (currentTime (elems s v)) (currentTime (elems s m))\<bar>) \<and>
          preceded (WaitingAdd v) (WriteCurrentTime v (currentTime (elems s m)))
            (newEffects s s')))"
proof (cases "playState (stateManager s) = PAUSED")
  case True
  show ?thesis
    unfolding syncVideos_paused[OF assms True] fold_paused[OF refl]
    using True assms(1) by (auto simp: newEffects_def)
next
  case False
  define vs where
    "vs = filter (\<lambda>video. thr < \<bar>minus64 (currentTime (elems s video))
                                          (currentTime (elems s m))\<bar>)
            (videos s)"
  from fold_playing[where s = s and m = m and vs = vs, OF refl] obtain s' where
    s': "fold (\<lambda>video s'. writeCurrentTime video (currentTime (elems (setWaiting video s') m))
                             (setWaiting video s')) vs s = s'"
     "elems s' = (\<lambda>w. if w \<in> set vs then (elems s w)\<lparr>currentTime := currentTime (elems s m)\<rparr>
                       else elems s w)"
     "trace s' = trace s @ concat (map (\<lambda>w. WaitingAdd w #
        publishedOnStall (playState (stateManager s)) @
        [WriteCurrentTime w (currentTime (elems s m))]) vs)"
     "videosWaiting s' = videosWaiting s \<union> set vs"
    by blast
  have r: "syncVideos thr s = Inr s'"
    using syncVideos_playing[OF assms False, of thr] s'(1) by (simp add: vs_def)
  have n: "newEffects s s' = concat (map (\<lambda>w. WaitingAdd w #
        publishedOnStall (playState (stateManager s)) @
        [WriteCurrentTime w (currentTime (elems s m))]) vs)"
    by (simp add: newEffects_def s'(3))
  have mem: "v \<in> set vs \<longleftrightarrow>
      v \<in> set (videos s) \<and> thr < \<bar>minus64 (currentTime (elems s v)) (currentTime (elems s m))\<bar>" for v
    by (simp add: vs_def)
  have w: "WriteCurrentTime v t \<in> set (newEffects s s') \<longleftrightarrow>
      v \<in> set vs \<and> t = currentTime (elems s m)" for v t
    unfolding n by (rule write_in_blocks)
  have p: "preceded (WaitingAdd v) (WriteCurrentTime v (currentTime (elems s m)))
      (newEffects s s')" for v
    unfolding n by (rule preceded_blocks)
  show ?thesis
    by (rule exI[of _ s'])
      (use False r in \<open>simp add: w p mem s'(2) s'(4) assms(1)\<close>)
qed

theorem drift_correction_witness:
  "videosWaiting (driftExample PLAYING) = {} \<and> \<not> live (stateManager (driftExample PLAYING)) \<and>
   videos (driftExample PLAYING) = [0, 1, 2] \<and>
   \<not> isl (syncVideos (1 / 2) (driftExample PLAYING)) \<and>
   currentTime (elems (projr (syncVideos (1 / 2) (driftExample PLAYING))) 1) = 41 / 4 \<and>
   currentTime (elems (projr (syncVideos (1 / 2) (driftExample PLAYING))) 2) = 10 \<and>
   videosWaiting (projr (syncVideos (1 / 2) (driftExample PLAYING))) = {2} \<and>
   newEffects (driftExample PLAYING) (projr (syncVideos (1 / 2) (driftExample PLAYING))) =
     [WaitingAdd 2, SetPlayState WAITING None, WriteCurrentTime 2 10] \<and>
   \<not> isl (syncVideos (1 / 2) (driftExample PAUSED)) \<and>
   currentTime (elems (projr (syncVideos (1 / 2) (driftExample PAUSED))) 1) = 10 \<and>
   currentTime (elems (projr (syncVideos (1 / 2) (driftExample PAUSED))) 2) = 10 \<and>
   videosWaiting (projr (syncVideos (1 / 2) (driftExample PAUSED))) = {} \<and>
   newEffects (driftExample PAUSED) (projr (syncVideos (1 / 2) (driftExample PAUSED))) =
     [WriteCurrentTime 1 10, WriteCurrentTime 2 10] \<and>
   videosWaiting roundingExample = {} \<and> \<not> live (stateManager roundingExample) \<and>
   videos roundingExample = [0, 1] \<and>
   1 / 2 < currentTime (elems roundingExample 1) - currentTime (elems roundingExample 0) \<and>
   \<bar>minus64 (currentTime (elems roundingExample 1)) (currentTime (elems roundingExample 0))\<bar>
     = 1 / 2 \<and>
   syncVideos (1 / 2) roundingExample = Inr roundingExample"
  using drift_correction[of "driftExample PLAYING" 0 "[1, 2]" "1 / 2"]
    drift_correction[of "driftExample PAUSED" 0 "[1, 2]" "1 / 2"]
    drift_correction[of roundingExample 0 "[1]" "1 / 2"]
  by (simp add: driftExample_def roundingExample_def ex_defs syncVideos_def anyWaiting_def
      masterTime_def writeCurrentTime_def setWaiting_def do_backupPlayState_def setPlayState_def
      Let_def newEffects_def minus64_self minus64_examples)

text \<open>
  C4. When a progress notification for an element calls \<^verbatim>\<open>setBufferPosition\<close>, the value
  published is the least of the buffer positions in the map as the notification leaves
  it, and the store holds that value. The properties of any other element, whether it
  has an entry in the map or not, have no part in the value: with them replaced by
  anything, the same value is published.
\<close>

theorem buffer_aggregation:
  assumes "trace (videoProgress v s) = trace s @ [SetBufferPosition g]"
  shows "g = Min (snd ` set (videoBufferPositions (videoProgress v s))) \<and>
         bufferPosition (stateManager (videoProgress v s)) = g \<and>
         (\<forall>w el. w \<noteq> v \<longrightarrow>
            bufferPosition (stateManager (videoProgress v (s\<lparr>elems := (elems s)(w := el)\<rparr>))) = g)"
proof -
  from videoProgress_cases[of v s] assms obtain m where
    m: "videoProgress v s =
          setBufferPosition (Min (snd ` set m)) (s\<lparr>videoBufferPositions := m\<rparr>)"
    by auto
  with assms have g: "g = Min (snd ` set m)"
    by (simp add: setBufferPosition_def)
  have frame: "videoProgress v (s\<lparr>elems := (elems s)(w := el)\<rparr>) =
      (videoProgress v s)\<lparr>elems := (elems s)(w := el)\<rparr>" if "w \<noteq> v" for w el
    using that unfolding videoProgress_def Let_def
    by (simp add: setBufferPosition_def split: option.splits list.splits)
  show ?thesis using m g by (simp add: setBufferPosition_def frame)
qed

theorem buffer_aggregation_witness:
  "trace (videoProgress 1 progressExample) = trace progressExample @ [SetBufferPosition 5] \<and>
   videoBufferPositions (videoProgress 1 progressExample) = [(0, 5), (1, 20)] \<and>
   5 = Min (snd ` set (videoBufferPositions (videoProgress 1 progressExample))) \<and>
   bufferPosition (stateManager (videoProgress 1 progressExample)) = 5"
proof -
  have h: "trace (videoProgress 1 progressExample) = trace progressExample @ [SetBufferPosition 5]"
    by (simp add: progressExample_def ex_defs videoProgress_def currentBuffer_def
        setBufferPosition_def)
  have m: "videoBufferPositions (videoProgress 1 progressExample) = [(0, 5), (1, 20)]"
    by (simp add: progressExample_def ex_defs videoProgress_def currentBuffer_def
        setBufferPosition_def)
  from buffer_aggregation[OF h] h m show ?thesis by simp
qed

text \<open>
  C5. When the play state of the store is WAITING, \<^verbatim>\<open>_backupPlayState\<close> changes nothing,
  so a backup that exists is kept. When a backup exists and the play state of the store
  is not WAITING, \<^verbatim>\<open>_restorePlayState\<close> leaves the store as it is, calls nothing on it,
  and clears the backup.
\<close>

theorem backup_restore:
  "(playState (stateManager s) = WAITING \<longrightarrow> do_backupPlayState s = s) \<and>
   (backupPlayState s \<noteq> None \<and> playState (stateManager s) \<noteq> WAITING \<longrightarrow>
      stateManager (do_restorePlayState s) = stateManager s \<and>
      trace (do_restorePlayState s) = trace s \<and>
      backupPlayState (do_restorePlayState s) = None)"
  by (auto simp: do_backupPlayState_def do_restorePlayState_def)

theorem backup_restore_witness:
  "playState (stateManager waitingExample) = WAITING \<and>
   backupPlayState (do_backupPlayState waitingExample) = Some PLAYING \<and>
   backupPlayState pausedExample = Some PLAYING \<and>
   playState (stateManager pausedExample) = PAUSED \<and>
   playState (stateManager (do_restorePlayState pausedExample)) = PAUSED \<and>
   trace (do_restorePlayState pausedExample) = [] \<and>
   backupPlayState (do_restorePlayState pausedExample) = None"
  using backup_restore[of waitingExample] backup_restore[of pausedExample]
  by (simp add: waitingExample_def pausedExample_def ex_defs)

text \<open>
  C6, as the code has it. In a non-empty registry \<^verbatim>\<open>isMaster\<close> holds of an element if
  and only if it is the element at position 0. Unregistering removes an element from
  every position it holds: after the element at position 0 is unregistered, \<^verbatim>\<open>isMaster\<close>
  holds of the element that was at position 1, provided that this is another element
  than the one at position 0.
\<close>

theorem mastery:
  "(videos s \<noteq> [] \<longrightarrow> (isMaster e s \<longleftrightarrow> e = videos s ! 0)) \<and>
   (2 \<le> length (videos s) \<and> videos s ! 1 \<noteq> videos s ! 0 \<longrightarrow>
      isMaster (videos s ! 1) (unregisterVideo (videos s ! 0) s))"
proof -
  have a: "videos s \<noteq> [] \<longrightarrow> (isMaster e s \<longleftrightarrow> e = videos s ! 0)"
    by (auto simp: isMaster_def indexOf_zero hd_conv_nth)
  have b: "isMaster (videos s ! 1) (unregisterVideo (videos s ! 0) s)"
    if "2 \<le> length (videos s)" "videos s ! 1 \<noteq> videos s ! 0"
  proof -
    from that obtain a b r where "videos s = a # b # r" "b \<noteq> a"
      by (cases "videos s"; cases "tl (videos s)") auto
    then show ?thesis by (simp add: isMaster_def unregisterVideo_def)
  qed
  from a b show ?thesis by blast
qed

theorem mastery_witness:
  "videos (driftExample PLAYING) = [0, 1, 2] \<and>
   isMaster 0 (driftExample PLAYING) \<and> \<not> isMaster 1 (driftExample PLAYING) \<and>
   videos (unregisterVideo 0 (driftExample PLAYING)) = [1, 2] \<and>
   isMaster 1 (unregisterVideo 0 (driftExample PLAYING))"
  using mastery[of "driftExample PLAYING" 0] mastery[of "driftExample PLAYING" 1]
  by (simp add: driftExample_def ex_defs unregisterVideo_def)

text \<open>
  With element 0 registered twice and then element 1, unregistering the element at
  position 0 leaves the registry \<open>[1]\<close>: the element that was at position 1 is element 0
  itself, and it is not the master afterwards.
\<close>

theorem mastery_counterexample:
  "videos twiceRegistered ! 0 = 0 \<and> videos twiceRegistered ! 1 = 0 \<and>
   videos (unregisterVideo 0 twiceRegistered) = [1] \<and>
   \<not> isMaster 0 (unregisterVideo 0 twiceRegistered)"
  by (simp add: twiceRegistered_def ex_defs unregisterVideo_def isMaster_def)

text \<open>
  C7. A trim bound is set when the handler's test of it holds, and the trim window is
  well formed: when both bounds are set, the trim start is not after the trim end. On a
  time update from the master while no element waits: if the trim start is set and the
  master's position is below it, the trim start is published; if the trim end is set
  and the position is above it, the trim end is published; a position inside the
  window, neither below a set trim start nor above a set trim end, is published as it
  is. Each time the store holds the published position and \<^verbatim>\<open>setPosition\<close> is called
  once, with \<^verbatim>\<open>false\<close> as its second argument.
\<close>

theorem trim_clamping:
  assumes "isMaster video s" and "\<not> anyWaiting s"
    and "truthy (trimStart (stateManager s)) \<and> truthy (trimEnd (stateManager s)) \<longrightarrow>
           the (trimStart (stateManager s)) \<le> the (trimEnd (stateManager s))"
  shows "(truthy (trimStart (stateManager s)) \<and>
            currentTime (elems s video) < the (trimStart (stateManager s)) \<longrightarrow>
          position (stateManager (videoTimeUpdate video s)) = the (trimStart (stateManager s)) \<and>
          trace (videoTimeUpdate video s) =
            trace s @ [SetPosition (the (trimStart (stateManager s))) False]) \<and>
         (truthy (trimEnd (stateManager s)) \<and>
            currentTime (elems s video) > the (trimEnd (stateManager s)) \<longrightarrow>
          position (stateManager (videoTimeUpdate video s)) = the (trimEnd (stateManager s)) \<and>
          trace (videoTimeUpdate video s) =
            trace s @ [SetPosition (the (trimEnd (stateManager s))) False]) \<and>
         (\<not> (truthy (trimStart (stateManager s)) \<and>
                 currentTime (elems s video) < the (trimStart (stateManager s))) \<and>
          \<not> (truthy (trimEnd (stateManager s)) \<and>
                 currentTime (elems s video) > the (trimEnd (stateManager s))) \<longrightarrow>
          position (stateManager (videoTimeUpdate video s)) = currentTime (elems s video) \<and>
          trace (videoTimeUpdate video s) =
            trace s @ [SetPosition (currentTime (elems s video)) False])"
proof -
  have first: "\<not> (truthy (trimStart (stateManager s)) \<and>
      currentTime (elems s video) < the (trimStart (stateManager s)))"
    if "truthy (trimEnd (stateManager s))"
      and "currentTime (elems s video) > the (trimEnd (stateManager s))"
    using that assms(3) by auto
  show ?thesis
    using assms(1,2) first by (auto simp: videoTimeUpdate_def setPosition_def Let_def)
qed

theorem trim_clamping_witness:
  "isMaster 0 (trimExample (Some 10) (Some 50) 7) \<and>
   \<not> anyWaiting (trimExample (Some 10) (Some 50) 7) \<and>
   truthy (trimStart (stateManager (trimExample (Some 10) (Some 50) 7))) \<and>
   truthy (trimEnd (stateManager (trimExample (Some 10) (Some 50) 60))) \<and>
   the (trimStart (stateManager (trimExample (Some 10) (Some 50) 7))) = 10 \<and>
   the (trimEnd (stateManager (trimExample (Some 10) (Some 50) 7))) = 50 \<and>
   currentTime (elems (trimExample (Some 10) (Some 50) 7) 0) = 7 \<and>
   currentTime (elems (trimExample (Some 10) (Some 50) 60) 0) = 60 \<and>
   currentTime (elems (trimExample (Some 10) (Some 50) 20) 0) = 20 \<and>
   position (stateManager (videoTimeUpdate 0 (trimExample (Some 10) (Some 50) 7))) = 10 \<and>
   position (stateManager (videoTimeUpdate 0 (trimExample (Some 10) (Some 50) 60))) = 50 \<and>
   position (stateManager (videoTimeUpdate 0 (trimExample (Some 10) (Some 50) 20))) = 20"
  using trim_clamping[of 0 "trimExample (Some 10) (Some 50) 7"]
    trim_clamping[of 0 "trimExample (Some 10) (Some 50) 60"]
    trim_clamping[of 0 "trimExample (Some 10) (Some 50) 20"]
  by (simp add: trimExample_def ex_defs isMaster_def anyWaiting_def truthy_def)

text \<open>
  C8. A ready callback is an opaque function that does not call back into the manager.
  When a ready notification removes the only waiting element, the callbacks invoked are
  all the registered ones, in the order of the list, which is the order of registration;
  afterwards the list holds the entries with \<^verbatim>\<open>once = false\<close>, in their order, and no
  other. An entry with \<^verbatim>\<open>once = false\<close> stays through whatever events follow without
  an error, and its callback is invoked again by every later ready notification that
  removes the only waiting element.
\<close>

theorem ready_callbacks:
  assumes "videosWaiting s = {v}"
  shows "invocations (newEffects s (videoReady v s)) = map fst (readyCallbacks s) \<and>
         readyCallbacks (videoReady v s) = filter (\<lambda>entry. \<not> snd entry) (readyCallbacks s) \<and>
         readyCallbacks (onVideosReady cb' once' s) = readyCallbacks s @ [(cb', once')] \<and>
         (\<forall>evs s2 w cb.
            run thr evs (videoReady v s) = Inr s2 \<and> videosWaiting s2 = {w} \<and>
            (cb, False) \<in> set (readyCallbacks s) \<longrightarrow>
            cb \<in> set (invocations (newEffects s2 (videoReady w s2))))"
proof -
  have "cb \<in> set (invocations (newEffects s2 (videoReady w s2)))"
    if r: "run thr evs (videoReady v s) = Inr s2" and w: "videosWaiting s2 = {w}"
      and cb: "(cb, False) \<in> set (readyCallbacks s)" for evs s2 w cb
  proof -
    from cb have "(cb, False) \<in> set (readyCallbacks (videoReady v s))"
      using videoReady_effects[OF assms] by simp
    from run_recurring[OF r this] have "(cb, False) \<in> set (readyCallbacks s2)" .
    then have "cb \<in> set (map fst (readyCallbacks s2))" by force
    then show ?thesis using videoReady_effects[OF w] by simp
  qed
  then show ?thesis using videoReady_effects[OF assms] by (simp add: onVideosReady_def) blast
qed

theorem ready_callbacks_witness:
  "videosWaiting waitingExample = {0} \<and>
   invocations (newEffects waitingExample (videoReady 0 waitingExample)) = [7, 8, 9] \<and>
   readyCallbacks (videoReady 0 waitingExample) = [(7, False), (9, False)] \<and>
   run (1 / 2) [Stalled 1] (videoReady 0 waitingExample) =
     Inr (videoWaiting 1 (videoReady 0 waitingExample)) \<and>
   videosWaiting (videoWaiting 1 (videoReady 0 waitingExample)) = {1} \<and>
   7 \<in> set (invocations (newEffects (videoWaiting 1 (videoReady 0 waitingExample))
                (videoReady 1 (videoWaiting 1 (videoReady 0 waitingExample)))))"
proof -
  have h: "videosWaiting waitingExample = {0}"
    by (simp add: waitingExample_def ex_defs)
  have r: "run (1 / 2) [Stalled 1] (videoReady 0 waitingExample) =
     Inr (videoWaiting 1 (videoReady 0 waitingExample))"
    by simp
  have w: "videosWaiting (videoWaiting 1 (videoReady 0 waitingExample)) = {1}"
    by (simp add: waitingExample_def ex_defs videoWaiting_def setWaiting_def videoReady_def
        Let_def anyWaiting_def do_backupPlayState_def do_restorePlayState_def setPlayState_def)
  have c: "(7, False) \<in> set (readyCallbacks waitingExample)"
    by (simp add: waitingExample_def ex_defs)
  note t = ready_callbacks[OF h, of _ _ "1 / 2"]
  from t r w c
  have "7 \<in> set (invocations (newEffects (videoWaiting 1 (videoReady 0 waitingExample))
                (videoReady 1 (videoWaiting 1 (videoReady 0 waitingExample)))))"
    by blast
  moreover have "readyCallbacks waitingExample = [(7, False), (8, True), (9, False)]"
    by (simp add: waitingExample_def ex_defs)
  ultimately show ?thesis using t h r w by simp
qed

text \<open>
  C9. A time falls within a buffered range when it is at or after the start of the range
  and before its end, which is how the handler tests it. On a seek notification for an
  element whose current time falls within one of its buffered ranges, the whole state,
  the store included, is left as it is. Otherwise the result is that of the stall
  handler: the element joins the waiting set; the play state is saved as the backup if
  no element was waiting and the play state is not WAITING, and the backup is kept
  otherwise; and WAITING is published, after the element has joined the waiting set,
  unless the play state is FINISHED.
\<close>

theorem seek_notification:
  "((\<exists>r \<in> set (buffered (elems s v)).
        fst r \<le> currentTime (elems s v) \<and> currentTime (elems s v) < snd r) \<longrightarrow>
      videoSeeking v s = s) \<and>
   (\<not> (\<exists>r \<in> set (buffered (elems s v)).
        fst r \<le> currentTime (elems s v) \<and> currentTime (elems s v) < snd r) \<longrightarrow>
      videoSeeking v s = videoWaiting v s \<and>
      videosWaiting (videoSeeking v s) = insert v (videosWaiting s) \<and>
      backupPlayState (videoSeeking v s) =
        (if videosWaiting s = {} \<and> playState (stateManager s) \<noteq> WAITING
         then Some (playState (stateManager s)) else backupPlayState s) \<and>
      playState (stateManager (videoSeeking v s)) =
        (if playState (stateManager s) = FINISHED then FINISHED else WAITING) \<and>
      trace (videoSeeking v s) =
        trace s @ [WaitingAdd v] @
          (if playState (stateManager s) = FINISHED then [] else [SetPlayState WAITING None]))"
  by (auto simp: videoSeeking_def seekBuffered_iff videoWaiting_def setWaiting_def Let_def
      anyWaiting_def do_backupPlayState_def setPlayState_def)

theorem seek_notification_witness:
  "buffered (elems (seekExample 9) 1) = [(0, 5), (8, 12)] \<and>
   currentTime (elems (seekExample 9) 1) = 9 \<and>
   currentTime (elems (seekExample 6) 1) = 6 \<and>
   videoSeeking 1 (seekExample 9) = seekExample 9 \<and>
   videoSeeking 1 (seekExample 6) = videoWaiting 1 (seekExample 6) \<and>
   videosWaiting (videoSeeking 1 (seekExample 6)) = {1} \<and>
   backupPlayState (videoSeeking 1 (seekExample 6)) = Some PLAYING \<and>
   playState (stateManager (videoSeeking 1 (seekExample 6))) = WAITING \<and>
   trace (videoSeeking 1 (seekExample 6)) = [WaitingAdd 1, SetPlayState WAITING None]"
proof -
  have inside: "\<exists>r \<in> set (buffered (elems (seekExample 9) 1)).
      fst r \<le> currentTime (elems (seekExample 9) 1) \<and>
      currentTime (elems (seekExample 9) 1) < snd r"
    by (simp add: seekExample_def ex_defs)
  have outside: "\<not> (\<exists>r \<in> set (buffered (elems (seekExample 6) 1)).
      fst r \<le> currentTime (elems (seekExample 6) 1) \<and>
      currentTime (elems (seekExample 6) 1) < snd r)"
    by (simp add: seekExample_def ex_defs)
  have before: "videosWaiting (seekExample 6) = {}"
    "playState (stateManager (seekExample 6)) = PLAYING"
    "trace (seekExample 6) = []"
    by (simp_all add: seekExample_def ex_defs)
  from seek_notification[of "seekExample 9" 1] inside
  have 1: "videoSeeking 1 (seekExample 9) = seekExample 9" by blast
  from seek_notification[of "seekExample 6" 1] outside
  have 2: "videoSeeking 1 (seekExample 6) = videoWaiting 1 (seekExample 6) \<and>
      videosWaiting (videoSeeking 1 (seekExample 6)) = insert 1 (videosWaiting (seekExample 6)) \<and>
      backupPlayState (videoSeeking 1 (seekExample 6)) =
        (if videosWaiting (seekExample 6) = {} \<and>
            playState (stateManager (seekExample 6)) \<noteq> WAITING
         then Some (playState (stateManager (seekExample 6)))
         else backupPlayState (seekExample 6)) \<and>
      playState (stateManager (videoSeeking 1 (seekExample 6))) =
        (if playState (stateManager (seekExample 6)) = FINISHED then FINISHED else WAITING) \<and>
      trace (videoSeeking 1 (seekExample 6)) =
        trace (seekExample 6) @ [WaitingAdd 1] @
          (if playState (stateManager (seekExample 6)) = FINISHED then []
           else [SetPlayState WAITING None])"
    by blast
  note a = 2[THEN conjunct1]
  note r = 2[THEN conjunct2]
  have b: "videosWaiting (videoSeeking 1 (seekExample 6)) = {1}"
    using r[THEN conjunct1] by (simp add: before)
  have c: "backupPlayState (videoSeeking 1 (seekExample 6)) = Some PLAYING"
    using r[THEN conjunct2, THEN conjunct1] by (simp add: before)
  have d: "playState (stateManager (videoSeeking 1 (seekExample 6))) = WAITING"
    using r[THEN conjunct2, THEN conjunct2, THEN conjunct1] by (simp add: before)
  have e: "trace (videoSeeking 1 (seekExample 6)) = [WaitingAdd 1, SetPlayState WAITING None]"
    using r[THEN conjunct2, THEN conjunct2, THEN conjunct2] by (simp add: before)
  have f: "buffered (elems (seekExample 9) 1) = [(0, 5), (8, 12)]"
    "currentTime (elems (seekExample 9) 1) = 9" "currentTime (elems (seekExample 6) 1) = 6"
    by (simp_all add: seekExample_def ex_defs)
  show ?thesis by (intro conjI) (fact 1 a b c d e f)+
qed

text \<open>
  C10. With an empty registry a tick returns without an error and leaves the whole state
  as it is, the log of effects included: no position is read from an absent master, no
  element is added to the waiting set, and nothing is called on the store. The first
  tick, which the constructor runs on the empty registry, is such a tick.
\<close>

theorem tick_empty_registry:
  "(videos s = [] \<longrightarrow> syncVideos thr s = Inr s) \<and>
   constructor thr st es =
     Inr \<lparr>stateManager = st, videos = [], videosWaiting = {}, videoBufferPositions = [],
          readyCallbacks = [], backupPlayState = None, elems = es, trace = []\<rparr>"
  by (simp add: syncVideos_def constructor_def)

theorem tick_empty_registry_witness:
  "videos sync0 = [] \<and> syncVideos (1 / 2) sync0 = Inr sync0 \<and>
   videos (sync0\<lparr>stateManager := store0\<lparr>playState := PAUSED\<rparr>\<rparr>) = [] \<and>
   syncVideos (1 / 2) (sync0\<lparr>stateManager := store0\<lparr>playState := PAUSED\<rparr>\<rparr>) =
     Inr (sync0\<lparr>stateManager := store0\<lparr>playState := PAUSED\<rparr>\<rparr>)"
proof -
  have h1: "videos sync0 = []" by (simp add: ex_defs)
  have h2: "videos (sync0\<lparr>stateManager := store0\<lparr>playState := PAUSED\<rparr>\<rparr>) = []"
    by (simp add: ex_defs)
  from tick_empty_registry[of sync0 "1 / 2"]
    tick_empty_registry[of "sync0\<lparr>stateManager := store0\<lparr>playState := PAUSED\<rparr>\<rparr>" "1 / 2"]
    h1 h2
  show ?thesis by blast
qed

end
